theory Spec2Isabelle
  imports Main
begin

section \<open>Python values used by the SDK\<close>

text \<open>
  The SDK is one Python module, \<^verbatim>\<open>sdk/python/paymodel.py\<close>. A Python \<^verbatim>\<open>str\<close> is
  modelled as a \<^typ>\<open>string\<close> whose characters stand for one code point each, so the
  model covers text whose code points lie below 256. The three things the module takes
  from outside itself are parameters of the model: \<^verbatim>\<open>json.loads\<close> (a function
  \<open>loads\<close> that gives the parsed value, or the exception that the call raises),
  \<^verbatim>\<open>bytes.decode("utf-8")\<close> (a function \<open>decode\<close>) and \<^verbatim>\<open>urllib.request.urlopen\<close>
  (a function \<open>urlopen\<close> from the request to what the network answers).
\<close>

subsection \<open>Parsed JSON\<close>

text \<open>
  What \<^verbatim>\<open>json.loads\<close> returns: \<^verbatim>\<open>None\<close>, a bool, an int, a float (kept as the text
  handed to \<^verbatim>\<open>parse_float\<close> or \<^verbatim>\<open>parse_constant\<close>), a str, a list, or a dict, whose
  items are kept in insertion order.
\<close>

datatype json =
    JNull
  | JBool bool
  | JInt int
  | JFloat string
  | JString string
  | JArray "json list"
  | JObject "(string \<times> json) list"

subsection \<open>Exceptions\<close>

text \<open>
  \<open>PaymodelError code message data\<close> is the module's own exception class; the others
  are the exceptions of Python and its library that the module's statements can raise
  (\<open>HTTPErrorRaised status reason body\<close> is \<^verbatim>\<open>urllib.error.HTTPError\<close>).
\<close>

datatype error =
    ValueError string
  | AttributeError
  | TypeError
  | JSONDecodeError
  | RecursionError
  | UnicodeDecodeError
  | URLError
  | HTTPErrorRaised nat string string
  | PaymodelError json json json

definition bind_err :: "error + 'a \<Rightarrow> ('a \<Rightarrow> error + 'b) \<Rightarrow> error + 'b" where
  "bind_err m f = (case m of Inl e \<Rightarrow> Inl e | Inr x \<Rightarrow> f x)"

subsection \<open>String methods\<close>

definition newline :: char where
  "newline = CHR 0x0A"

definition startswith :: "string \<Rightarrow> string \<Rightarrow> bool" where
  "startswith s p = (take (length p) s = p)"

text \<open>\<^verbatim>\<open>str.lower\<close> on code points below 256: A-Z and the Latin-1 capitals move up by 32.\<close>

definition lower_char :: "char \<Rightarrow> char" where
  "lower_char c =
     (let n = (of_char c :: nat) in
      if (65 \<le> n \<and> n \<le> 90) \<or> (192 \<le> n \<and> n \<le> 222 \<and> n \<noteq> 215)
      then char_of (n + 32) else c)"

definition lower :: "string \<Rightarrow> string" where
  "lower s = map lower_char s"

text \<open>\<^verbatim>\<open>str.isspace\<close> on code points below 256, the characters \<^verbatim>\<open>strip()\<close> removes.\<close>

definition isspace :: "char \<Rightarrow> bool" where
  "isspace c =
     (let n = (of_char c :: nat) in
      (9 \<le> n \<and> n \<le> 13) \<or> (28 \<le> n \<and> n \<le> 32) \<or> n = 133 \<or> n = 160)"

definition strip :: "string \<Rightarrow> string" where
  "strip s = rev (dropWhile isspace (rev (dropWhile isspace s)))"

definition rstrip :: "string \<Rightarrow> string \<Rightarrow> string" where
  "rstrip s chars = rev (dropWhile (\<lambda>c. c \<in> set chars) (rev s))"

text \<open>\<^verbatim>\<open>buffer.split("\n", 1)\<close> for a buffer that holds a newline: the text before the
  first newline, and the text after it.\<close>

definition split_newline :: "string \<Rightarrow> string \<times> string" where
  "split_newline buffer =
     (takeWhile (\<lambda>c. c \<noteq> newline) buffer, tl (dropWhile (\<lambda>c. c \<noteq> newline) buffer))"

subsection \<open>Dictionary and iteration\<close>

text \<open>\<^verbatim>\<open>d.get(key, default)\<close> on a dict; on any other JSON value the attribute
  \<^verbatim>\<open>get\<close> does not exist.\<close>

definition dict_get :: "(string \<times> json) list \<Rightarrow> string \<Rightarrow> json \<Rightarrow> json" where
  "dict_get d k dflt = (case map_of d k of None \<Rightarrow> dflt | Some v \<Rightarrow> v)"

fun get :: "json \<Rightarrow> string \<Rightarrow> json \<Rightarrow> error + json" where
  "get (JObject d) k dflt = Inr (dict_get d k dflt)"
| "get _ k dflt = Inl AttributeError"

text \<open>What \<^verbatim>\<open>enumerate(v)\<close> iterates over: the items of a list, the characters of a
  str, the keys of a dict; other JSON values are not iterable.\<close>

fun iter :: "json \<Rightarrow> error + json list" where
  "iter (JArray xs) = Inr xs"
| "iter (JString s) = Inr (map (\<lambda>c. JString [c]) s)"
| "iter (JObject d) = Inr (map (\<lambda>kv. JString (fst kv)) d)"
| "iter _ = Inl TypeError"

section \<open>Response shaping\<close>

text \<open>
  The classes of the module hold whatever the parsed JSON holds, so every attribute is a
  \<^typ>\<open>json\<close> value; an attribute that is \<^verbatim>\<open>None\<close> is \<^term>\<open>JNull\<close>.
\<close>

record Message =
  role :: json
  content :: json

record Choice =
  index :: json
  message :: Message
  finish_reason :: json

record Usage =
  prompt_tokens :: json
  completion_tokens :: json
  total_tokens :: json

record ChatCompletion =
  data :: json
  id' :: json
  object :: json
  model :: json
  choices :: "Choice list"
  usage :: Usage
  cost :: json
  balance :: json

record DeltaMessage =
  role :: json
  content :: json

record StreamChoice =
  index :: json
  delta :: DeltaMessage
  finish_reason :: json

record ChatCompletionChunk =
  id' :: json
  object :: json
  model :: json
  choices :: "StreamChoice list"

text \<open>One element \<open>c\<close> of \<^verbatim>\<open>enumerate(data.get("choices", []))\<close> at position \<open>i\<close>, as
  \<^verbatim>\<open>ChatCompletion.__init__\<close> shapes it.\<close>

definition Choice_of :: "nat \<Rightarrow> json \<Rightarrow> error + Choice" where
  "Choice_of i c =
     bind_err (get c ''index'' (JInt (int i))) (\<lambda>idx.
     bind_err (get c ''message'' (JObject [])) (\<lambda>m1.
     bind_err (get m1 ''role'' (JString ''assistant'')) (\<lambda>r.
     bind_err (get c ''message'' (JObject [])) (\<lambda>m2.
     bind_err (get m2 ''content'' (JString [])) (\<lambda>ct.
     bind_err (get c ''finish_reason'' JNull) (\<lambda>fr.
     Inr \<lparr>Choice.index = idx,
          message = \<lparr>Message.role = r, content = ct\<rparr>,
          finish_reason = fr\<rparr>))))))"

fun Choices_from :: "nat \<Rightarrow> json list \<Rightarrow> error + Choice list" where
  "Choices_from i [] = Inr []"
| "Choices_from i (c # cs) =
     bind_err (Choice_of i c) (\<lambda>x.
     bind_err (Choices_from (Suc i) cs) (\<lambda>xs. Inr (x # xs)))"

definition ChatCompletion_init :: "json \<Rightarrow> error + ChatCompletion" where
  "ChatCompletion_init d =
     bind_err (get d ''id'' (JString [])) (\<lambda>i.
     bind_err (get d ''object'' (JString ''chat.completion'')) (\<lambda>ob.
     bind_err (get d ''model'' (JString [])) (\<lambda>mo.
     bind_err (get d ''choices'' (JArray [])) (\<lambda>raw.
     bind_err (iter raw) (\<lambda>items.
     bind_err (Choices_from 0 items) (\<lambda>cs.
     bind_err (get d ''usage'' (JObject [])) (\<lambda>u.
     bind_err (get u ''prompt_tokens'' (JInt 0)) (\<lambda>pt.
     bind_err (get u ''completion_tokens'' (JInt 0)) (\<lambda>ct.
     bind_err (get u ''total_tokens'' (JInt 0)) (\<lambda>tt.
     Inr \<lparr>ChatCompletion.data = d, id' = i, object = ob, model = mo, choices = cs,
          usage = \<lparr>prompt_tokens = pt, completion_tokens = ct, total_tokens = tt\<rparr>,
          cost = JNull, balance = JNull\<rparr>))))))))))"

text \<open>The same for \<^verbatim>\<open>ChatCompletionChunk.__init__\<close>.\<close>

definition StreamChoice_of :: "nat \<Rightarrow> json \<Rightarrow> error + StreamChoice" where
  "StreamChoice_of i c =
     bind_err (get c ''index'' (JInt (int i))) (\<lambda>idx.
     bind_err (get c ''delta'' (JObject [])) (\<lambda>d1.
     bind_err (get d1 ''role'' JNull) (\<lambda>r.
     bind_err (get c ''delta'' (JObject [])) (\<lambda>d2.
     bind_err (get d2 ''content'' JNull) (\<lambda>ct.
     bind_err (get c ''finish_reason'' JNull) (\<lambda>fr.
     Inr \<lparr>StreamChoice.index = idx,
          delta = \<lparr>DeltaMessage.role = r, content = ct\<rparr>,
          finish_reason = fr\<rparr>))))))"

fun StreamChoices_from :: "nat \<Rightarrow> json list \<Rightarrow> error + StreamChoice list" where
  "StreamChoices_from i [] = Inr []"
| "StreamChoices_from i (c # cs) =
     bind_err (StreamChoice_of i c) (\<lambda>x.
     bind_err (StreamChoices_from (Suc i) cs) (\<lambda>xs. Inr (x # xs)))"

definition ChatCompletionChunk_init :: "json \<Rightarrow> error + ChatCompletionChunk" where
  "ChatCompletionChunk_init d =
     bind_err (get d ''id'' (JString [])) (\<lambda>i.
     bind_err (get d ''model'' (JString [])) (\<lambda>mo.
     bind_err (get d ''choices'' (JArray [])) (\<lambda>raw.
     bind_err (iter raw) (\<lambda>items.
     bind_err (StreamChoices_from 0 items) (\<lambda>cs.
     Inr \<lparr>ChatCompletionChunk.id' = i, object = JString ''chat.completion.chunk'',
          model = mo, choices = cs\<rparr>)))))"

section \<open>The client and its transport\<close>

text \<open>
  An instance of \<^verbatim>\<open>Paymodel\<close> holds \<^verbatim>\<open>_payer\<close> and \<^verbatim>\<open>_base_url\<close>; its \<^verbatim>\<open>chat\<close>
  attribute only wraps the instance itself.
\<close>

record Paymodel =
  payer :: string
  base_url :: string

definition DEFAULT_BASE_URL :: string where
  "DEFAULT_BASE_URL = ''https://paymodel.bflynn4141.workers.dev''"

text \<open>\<^verbatim>\<open>Paymodel.__init__(payer, base_url=None)\<close>. An empty string is falsy, both in
  \<^verbatim>\<open>not payer\<close> and in \<^verbatim>\<open>base_url or DEFAULT_BASE_URL\<close>.\<close>

definition Paymodel_init :: "string \<Rightarrow> string option \<Rightarrow> error + Paymodel" where
  "Paymodel_init p b =
     (if p = [] \<or> \<not> startswith p ''0x'' \<or> length p \<noteq> 42
      then Inl (ValueError ''payer must be a valid Ethereum address (0x + 40 hex chars)'')
      else Inr \<lparr>payer = lower p,
                base_url = rstrip (case b of None \<Rightarrow> DEFAULT_BASE_URL
                                   | Some u \<Rightarrow> if u = [] then DEFAULT_BASE_URL else u) ''/''\<rparr>)"

text \<open>
  A \<^verbatim>\<open>urllib.request.Request\<close>; \<open>body\<close> is the value that \<^verbatim>\<open>json.dumps\<close> serialises
  into the request's data. \<open>urlopen\<close> answers it with a response (body and headers), with
  an \<^verbatim>\<open>HTTPError\<close> (status, reason, body) for a status outside 200-299, or with no HTTP
  response at all.
\<close>

record Request =
  url :: string
  body :: "json option"
  headers :: "(string \<times> string) list"
  http_method :: string

datatype reply =
    Response string "(string \<times> string) list"
  | HTTPError nat string string
  | NoResponse

function str_nat :: "nat \<Rightarrow> string" where
  "str_nat n =
     (if n < 10 then [char_of (48 + n)]
      else str_nat (n div 10) @ [char_of (48 + n mod 10)])"
  by pat_completeness auto
termination
  by (relation "measure (\<lambda>n. n)") auto

text \<open>\<^verbatim>\<open>str(e)\<close> for an \<^verbatim>\<open>HTTPError\<close>.\<close>

definition HTTPError_str :: "nat \<Rightarrow> string \<Rightarrow> string" where
  "HTTPError_str code msg = ''HTTP Error '' @ str_nat code @ '': '' @ msg"

text \<open>What both \<^verbatim>\<open>_get\<close> and \<^verbatim>\<open>_post\<close> do with the reply: the \<^verbatim>\<open>try\<close> block and its
  \<^verbatim>\<open>except urllib.error.HTTPError\<close> handler. Nothing catches what \<^verbatim>\<open>json.loads\<close>
  raises, in the block or in the handler.\<close>

definition handle_reply ::
  "(string \<Rightarrow> error + json) \<Rightarrow> reply \<Rightarrow> error + json \<times> (string \<times> string) list" where
  "handle_reply loads r =
     (case r of
        Response text hs \<Rightarrow>
          (case loads text of
             Inl e \<Rightarrow> Inl e
           | Inr v \<Rightarrow> Inr (v, hs))
      | HTTPError code msg text \<Rightarrow>
          (case loads text of
             Inl e \<Rightarrow> Inl e
           | Inr b \<Rightarrow>
               bind_err (get b ''code'' (JString ''UNKNOWN'')) (\<lambda>c.
               bind_err (get b ''error'' (JString (HTTPError_str code msg))) (\<lambda>m.
               Inl (PaymodelError c m b))))
      | NoResponse \<Rightarrow> Inl URLError)"

definition get_request :: "Paymodel \<Rightarrow> string \<Rightarrow> Request" where
  "get_request self path =
     \<lparr>url = base_url self @ path, body = None,
      headers = [(''X-Payer'', payer self)], http_method = ''GET''\<rparr>"

definition post_request :: "Paymodel \<Rightarrow> string \<Rightarrow> json \<Rightarrow> Request" where
  "post_request self path b =
     \<lparr>url = base_url self @ path, body = Some b,
      headers = [(''Content-Type'', ''application/json''), (''X-Payer'', payer self)],
      http_method = ''POST''\<rparr>"

definition Paymodel_get ::
  "(string \<Rightarrow> error + json) \<Rightarrow> (Request \<Rightarrow> reply) \<Rightarrow> Paymodel \<Rightarrow> string
     \<Rightarrow> error + json \<times> (string \<times> string) list" where
  "Paymodel_get loads urlopen self path =
     handle_reply loads (urlopen (get_request self path))"

definition Paymodel_post ::
  "(string \<Rightarrow> error + json) \<Rightarrow> (Request \<Rightarrow> reply) \<Rightarrow> Paymodel \<Rightarrow> string \<Rightarrow> json
     \<Rightarrow> error + json \<times> (string \<times> string) list" where
  "Paymodel_post loads urlopen self path b =
     handle_reply loads (urlopen (post_request self path b))"

definition Paymodel_balance ::
  "(string \<Rightarrow> error + json) \<Rightarrow> (Request \<Rightarrow> reply) \<Rightarrow> Paymodel \<Rightarrow> error + json" where
  "Paymodel_balance loads urlopen self =
     map_sum (\<lambda>e. e) fst (Paymodel_get loads urlopen self ''/v1/balance'')"

definition Paymodel_deposit ::
  "(string \<Rightarrow> error + json) \<Rightarrow> (Request \<Rightarrow> reply) \<Rightarrow> Paymodel \<Rightarrow> string
     \<Rightarrow> error + json" where
  "Paymodel_deposit loads urlopen self tx_hash =
     map_sum (\<lambda>e. e) fst
       (Paymodel_post loads urlopen self ''/v1/deposit''
          (JObject [(''txHash'', JString tx_hash)]))"

definition Paymodel_models ::
  "(string \<Rightarrow> error + json) \<Rightarrow> (Request \<Rightarrow> reply) \<Rightarrow> Paymodel \<Rightarrow> error + json" where
  "Paymodel_models loads urlopen self =
     map_sum (\<lambda>e. e) fst (Paymodel_get loads urlopen self ''/v1/models'')"

definition Paymodel_usage ::
  "(string \<Rightarrow> error + json) \<Rightarrow> (Request \<Rightarrow> reply) \<Rightarrow> Paymodel \<Rightarrow> error + json" where
  "Paymodel_usage loads urlopen self =
     map_sum (\<lambda>e. e) fst (Paymodel_get loads urlopen self ''/v1/usage'')"

text \<open>\<^verbatim>\<open>headers.get(name)\<close> on the dict of response headers.\<close>

definition header_get :: "(string \<times> string) list \<Rightarrow> string \<Rightarrow> json" where
  "header_get hs name = (case map_of hs name of None \<Rightarrow> JNull | Some v \<Rightarrow> JString v)"

text \<open>\<^verbatim>\<open>ChatCompletions._request(body)\<close>, the call without streaming.\<close>

definition ChatCompletions_request ::
  "(string \<Rightarrow> error + json) \<Rightarrow> (Request \<Rightarrow> reply) \<Rightarrow> Paymodel \<Rightarrow> json
     \<Rightarrow> error + ChatCompletion" where
  "ChatCompletions_request loads urlopen self b =
     bind_err (Paymodel_post loads urlopen self ''/v1/chat/completions'' b) (\<lambda>(d, hs).
     bind_err (ChatCompletion_init d) (\<lambda>result.
     Inr (result\<lparr>cost := header_get hs ''X-Cost'', balance := header_get hs ''X-Balance''\<rparr>)))"

section \<open>The stream decoder\<close>

text \<open>
  \<^verbatim>\<open>ChatCompletions._stream\<close> is a generator. Its run over the lines that the response
  hands out is modelled by the list of chunks it yields and by how it stops. The inner
  \<^verbatim>\<open>while "\n" in buffer\<close> loop either leaves the rest of the buffer for the next
  line of the response (\<open>Continue\<close>), executes \<^verbatim>\<open>return\<close> at the sentinel
  (\<open>Return\<close>), or lets an exception escape (\<open>Raise\<close>). Only \<^verbatim>\<open>JSONDecodeError\<close> is
  caught; any other exception of \<^verbatim>\<open>json.loads\<close> and what
  \<^verbatim>\<open>ChatCompletionChunk(chunk_data)\<close> raises escape.
\<close>

datatype step =
    Continue string
  | Return
  | Raise error

function drain ::
  "(string \<Rightarrow> error + json) \<Rightarrow> string \<Rightarrow> ChatCompletionChunk list \<times> step" where
  "drain loads buffer =
     (if newline \<in> set buffer then
        (let event_line = strip (fst (split_newline buffer));
             buffer' = snd (split_newline buffer)
         in if \<not> startswith event_line ''data: '' then drain loads buffer'
            else (let payload = drop 6 event_line
                  in if payload = ''[DONE]'' then ([], Return)
                     else (case loads payload of
                             Inl e \<Rightarrow>
                               if e = JSONDecodeError then drain loads buffer'
                               else ([], Raise e)
                           | Inr chunk_data \<Rightarrow>
                               (case ChatCompletionChunk_init chunk_data of
                                  Inl e \<Rightarrow> ([], Raise e)
                                | Inr chunk \<Rightarrow>
                                    (chunk # fst (drain loads buffer'),
                                     snd (drain loads buffer'))))))
      else ([], Continue buffer))"
  by pat_completeness auto
termination
proof -
  have shorter: "length (snd (split_newline b)) < length b" if "newline \<in> set b" for b
  proof -
    from that have "dropWhile (\<lambda>c. c \<noteq> newline) b \<noteq> []"
      by (simp add: dropWhile_eq_Nil_conv)
    then have "length (tl (dropWhile (\<lambda>c. c \<noteq> newline) b))
                 < length (dropWhile (\<lambda>c. c \<noteq> newline) b)"
      by (cases "dropWhile (\<lambda>c. c \<noteq> newline) b") simp_all
    also have "\<dots> \<le> length b"
      by (rule length_dropWhile_le)
    finally show ?thesis
      by (simp add: split_newline_def)
  qed
  show ?thesis
    by (relation "measure (\<lambda>(loads, buffer). length buffer)") (auto simp: shorter)
qed

declare drain.simps [simp del]

text \<open>
  How the generator stops: the response ran out of lines, the sentinel was read, or an
  exception escaped. Python shows the first two alike, as the end of the iteration.
\<close>

datatype stop =
    Exhausted
  | Returned
  | Raised error

text \<open>The \<^verbatim>\<open>for raw_line in resp\<close> loop, from a given buffer.\<close>

fun stream_loop ::
  "(string \<Rightarrow> error + json) \<Rightarrow> ('b \<Rightarrow> string option) \<Rightarrow> string \<Rightarrow> 'b list
     \<Rightarrow> ChatCompletionChunk list \<times> stop" where
  "stream_loop loads decode buffer [] = ([], Exhausted)"
| "stream_loop loads decode buffer (raw_line # resp) =
     (case decode raw_line of
        None \<Rightarrow> ([], Raised UnicodeDecodeError)
      | Some line \<Rightarrow>
          (case drain loads (buffer @ line) of
             (chunks, Continue buffer') \<Rightarrow>
               (chunks @ fst (stream_loop loads decode buffer' resp),
                snd (stream_loop loads decode buffer' resp))
           | (chunks, Return) \<Rightarrow> (chunks, Returned)
           | (chunks, Raise e) \<Rightarrow> (chunks, Raised e)))"

text \<open>The generator from the response on: the buffer starts empty.\<close>

definition ChatCompletions_stream ::
  "(string \<Rightarrow> error + json) \<Rightarrow> ('b \<Rightarrow> string option) \<Rightarrow> 'b list
     \<Rightarrow> ChatCompletionChunk list \<times> stop" where
  "ChatCompletions_stream loads decode resp = stream_loop loads decode [] resp"

text \<open>
  \<^verbatim>\<open>ChatCompletions._stream(body)\<close> from its first statement. The generator builds the
  request of \<^verbatim>\<open>_post\<close> for the path of the chat completions and opens it with
  \<^verbatim>\<open>urlopen\<close>, outside any \<^verbatim>\<open>try\<close>: \<open>urlopen\<close> answers with a response (the raw lines
  that its iteration hands out), with an \<^verbatim>\<open>HTTPError\<close> for a status outside 200-299, which
  escapes as it is, or with no HTTP response at all.
\<close>

datatype 'b stream_reply =
    StreamResponse "'b list"
  | StreamHTTPError nat string string
  | StreamNoResponse

definition ChatCompletions_stream_call ::
  "(string \<Rightarrow> error + json) \<Rightarrow> ('b \<Rightarrow> string option) \<Rightarrow> (Request \<Rightarrow> 'b stream_reply)
     \<Rightarrow> Paymodel \<Rightarrow> json \<Rightarrow> ChatCompletionChunk list \<times> stop" where
  "ChatCompletions_stream_call loads decode urlopen self b =
     (case urlopen (post_request self ''/v1/chat/completions'' b) of
        StreamResponse resp \<Rightarrow> ChatCompletions_stream loads decode resp
      | StreamHTTPError code msg doc \<Rightarrow> ([], Raised (HTTPErrorRaised code msg doc))
      | StreamNoResponse \<Rightarrow> ([], Raised URLError))"

section \<open>A JSON reader for the documented examples\<close>

text \<open>
  The general properties of the transport and of the decoder are proved for every
  \<open>loads\<close>. To run the code on the wire texts of the documented examples, \<open>json_loads\<close> follows Python's \<^verbatim>\<open>json.loads\<close> on a
  \<^verbatim>\<open>str\<close> (the scanner of \<^verbatim>\<open>json/scanner.py\<close> and \<^verbatim>\<open>json/decoder.py\<close>: strict
  strings, the number pattern, the constants \<^verbatim>\<open>NaN\<close> and \<^verbatim>\<open>Infinity\<close>, whitespace
  around values, no text after the value). A \<^verbatim>\<open>\uXXXX\<close> escape is read where its code
  point lies below 256. The recursion is bounded by a counter that the length of the text
  determines, since a nested value starts after at least one character; the recursion
  limit of the interpreter, which \<^verbatim>\<open>json.loads\<close> meets on texts nested some thousand levels
  deep, is not part of \<open>json_loads\<close> (the texts evaluated here nest four levels).
\<close>

definition skip_ws :: "string \<Rightarrow> string" where
  "skip_ws s = dropWhile (\<lambda>c. c \<in> set [CHR '' '', CHR 0x09, CHR 0x0A, CHR 0x0D]) s"

definition is_digit :: "char \<Rightarrow> bool" where
  "is_digit c = (c \<in> set ''0123456789'')"

definition int_of_digits :: "string \<Rightarrow> int" where
  "int_of_digits ds = foldl (\<lambda>a c. 10 * a + (int (of_char c) - 48)) 0 ds"

definition hex_value :: "char \<Rightarrow> nat option" where
  "hex_value c =
     (let n = (of_char c :: nat) in
      if 48 \<le> n \<and> n \<le> 57 then Some (n - 48)
      else if 97 \<le> n \<and> n \<le> 102 then Some (n - 87)
      else if 65 \<le> n \<and> n \<le> 70 then Some (n - 55)
      else None)"

text \<open>The character that a one-letter escape stands for.\<close>

definition BACKSLASH :: "char \<Rightarrow> char option" where
  "BACKSLASH e =
     map_of [(CHR 0x22, CHR 0x22), (CHR 0x5C, CHR 0x5C), (CHR ''/'', CHR ''/''),
             (CHR ''b'', CHR 0x08), (CHR ''f'', CHR 0x0C), (CHR ''n'', CHR 0x0A),
             (CHR ''r'', CHR 0x0D), (CHR ''t'', CHR 0x09)] e"

text \<open>\<^verbatim>\<open>scanstring\<close>, from behind the opening quote: the string and the text behind
  its closing quote.\<close>

fun scanstring :: "string \<Rightarrow> (string \<times> string) option" where
  "scanstring [] = None"
| "scanstring (c # r) =
     (if c = CHR 0x22 then Some ([], r)
      else if c = CHR 0x5C then
        (case r of
           [] \<Rightarrow> None
         | e # r1 \<Rightarrow>
             if e = CHR ''u'' then
               (case r1 of
                  a # b # x # y # r2 \<Rightarrow>
                    (case (hex_value a, hex_value b, hex_value x, hex_value y) of
                       (Some 0, Some 0, Some h, Some l) \<Rightarrow>
                         (case scanstring r2 of
                            None \<Rightarrow> None
                          | Some (s, rest) \<Rightarrow> Some (char_of (16 * h + l) # s, rest))
                     | _ \<Rightarrow> None)
                | _ \<Rightarrow> None)
             else
               (case BACKSLASH e of
                  None \<Rightarrow> None
                | Some ch \<Rightarrow>
                    (case scanstring r1 of
                       None \<Rightarrow> None
                     | Some (s, rest) \<Rightarrow> Some (ch # s, rest))))
      else if (of_char c :: nat) < 32 then None
      else (case scanstring r of
              None \<Rightarrow> None
            | Some (s, rest) \<Rightarrow> Some (c # s, rest)))"

text \<open>\<^verbatim>\<open>NUMBER_RE\<close>: an integer part, then a fraction and an exponent where they are
  complete; an int without them, a float with either.\<close>

definition scan_number :: "string \<Rightarrow> (json \<times> string) option" where
  "scan_number s =
     (let sign = (if startswith s ''-'' then ''-'' else []);
          s1 = drop (length sign) s
      in case s1 of
           [] \<Rightarrow> None
         | c # r \<Rightarrow>
             if \<not> is_digit c then None
             else
               (let ip = (if c = CHR ''0'' then ''0'' else takeWhile is_digit s1);
                    r1 = drop (length ip) s1;
                    fd = (case r1 of
                            [] \<Rightarrow> []
                          | d # t \<Rightarrow> if d = CHR ''.'' then takeWhile is_digit t else []);
                    frac = (if fd = [] then [] else CHR ''.'' # fd);
                    r2 = drop (length frac) r1;
                    ex = (case r2 of
                            [] \<Rightarrow> []
                          | e # t \<Rightarrow>
                              if e \<in> set ''eE'' then
                                (let sg = (case t of
                                             [] \<Rightarrow> []
                                           | g # u \<Rightarrow> if g \<in> set ''+-'' then [g] else []);
                                     ed = takeWhile is_digit (drop (length sg) t)
                                 in if ed = [] then [] else e # sg @ ed)
                              else []);
                    r3 = drop (length ex) r2
                in if frac = [] \<and> ex = []
                   then Some (JInt (if sign = [] then int_of_digits ip
                                    else - int_of_digits ip), r3)
                   else Some (JFloat (sign @ ip @ frac @ ex), r3)))"

text \<open>Storing a key of a JSON object: a repeated key keeps its place and takes the later
  value, as building the dict from the pairs does.\<close>

fun setitem :: "(string \<times> json) list \<Rightarrow> string \<Rightarrow> json \<Rightarrow> (string \<times> json) list" where
  "setitem [] k v = [(k, v)]"
| "setitem (p # ps) k v = (if fst p = k then (k, v) # ps else p # setitem ps k v)"

fun scan_once :: "nat \<Rightarrow> string \<Rightarrow> (json \<times> string) option"
  and scan_array :: "nat \<Rightarrow> string \<Rightarrow> json list \<Rightarrow> (json \<times> string) option"
  and scan_object :: "nat \<Rightarrow> string \<Rightarrow> (string \<times> json) list \<Rightarrow> (json \<times> string) option"
where
  "scan_once 0 s = None"
| "scan_once (Suc n) s =
     (case s of
        [] \<Rightarrow> None
      | c # r \<Rightarrow>
          if c = CHR 0x22 then
            (case scanstring r of
               None \<Rightarrow> None
             | Some (str, rest) \<Rightarrow> Some (JString str, rest))
          else if c = CHR ''{'' then
            (if startswith (skip_ws r) ''}'' then Some (JObject [], drop 1 (skip_ws r))
             else scan_object n (skip_ws r) [])
          else if c = CHR ''['' then
            (if startswith (skip_ws r) '']'' then Some (JArray [], drop 1 (skip_ws r))
             else scan_array n (skip_ws r) [])
          else if startswith s ''null'' then Some (JNull, drop 4 s)
          else if startswith s ''true'' then Some (JBool True, drop 4 s)
          else if startswith s ''false'' then Some (JBool False, drop 5 s)
          else
            (case scan_number s of
               Some res \<Rightarrow> Some res
             | None \<Rightarrow>
                 if startswith s ''NaN'' then Some (JFloat ''NaN'', drop 3 s)
                 else if startswith s ''Infinity'' then Some (JFloat ''Infinity'', drop 8 s)
                 else if startswith s ''-Infinity'' then Some (JFloat ''-Infinity'', drop 9 s)
                 else None))"
| "scan_array 0 s acc = None"
| "scan_array (Suc n) s acc =
     (case scan_once n s of
        None \<Rightarrow> None
      | Some (v, r) \<Rightarrow>
          (case skip_ws r of
             [] \<Rightarrow> None
           | c # r1 \<Rightarrow>
               if c = CHR '']'' then Some (JArray (acc @ [v]), r1)
               else if c = CHR '','' then scan_array n (skip_ws r1) (acc @ [v])
               else None))"
| "scan_object 0 s acc = None"
| "scan_object (Suc n) s acc =
     (case s of
        [] \<Rightarrow> None
      | q # r \<Rightarrow>
          if q \<noteq> CHR 0x22 then None
          else
            (case scanstring r of
               None \<Rightarrow> None
             | Some (k, r1) \<Rightarrow>
                 if \<not> startswith (skip_ws r1) '':'' then None
                 else
                   (case scan_once n (skip_ws (drop 1 (skip_ws r1))) of
                      None \<Rightarrow> None
                    | Some (v, r2) \<Rightarrow>
                        (case skip_ws r2 of
                           [] \<Rightarrow> None
                         | c # r3 \<Rightarrow>
                             if c = CHR ''}'' then Some (JObject (setitem acc k v), r3)
                             else if c = CHR '','' then
                               scan_object n (skip_ws r3) (setitem acc k v)
                             else None))))"

text \<open>\<^verbatim>\<open>JSONDecoder.decode\<close>: whitespace, one value, whitespace, and the end of the text;
  \<^verbatim>\<open>JSONDecodeError\<close> otherwise.\<close>

definition json_loads :: "string \<Rightarrow> error + json" where
  "json_loads s =
     (case scan_once (2 * length s + 2) (skip_ws s) of
        None \<Rightarrow> Inl JSONDecodeError
      | Some (v, rest) \<Rightarrow> if skip_ws rest = [] then Inr v else Inl JSONDecodeError)"

section \<open>Notions used to state the properties\<close>

text \<open>The identity pattern: \<^verbatim>\<open>0x\<close> and then exactly 40 hexadecimal characters, in either
  letter case.\<close>

definition is_hex :: "char \<Rightarrow> bool" where
  "is_hex c = (c \<in> set ''0123456789abcdefABCDEF'')"

definition is_address :: "string \<Rightarrow> bool" where
  "is_address s = (length s = 42 \<and> take 2 s = ''0x'' \<and> list_all is_hex (drop 2 s))"

text \<open>The lowercase form of such a string: the six capital hexadecimal letters are
  replaced, every other character stays.\<close>

definition hex_lower :: "char \<Rightarrow> char" where
  "hex_lower c =
     (case map_of [(CHR ''A'', CHR ''a''), (CHR ''B'', CHR ''b''), (CHR ''C'', CHR ''c''),
                   (CHR ''D'', CHR ''d''), (CHR ''E'', CHR ''e''), (CHR ''F'', CHR ''f'')] c of
        None \<Rightarrow> c
      | Some l \<Rightarrow> l)"










text \<open>The error body of the documentation's example of a refused payment.\<close>

definition insufficient_funds :: string where
  "insufficient_funds = ''{\"code\":\"INSUFFICIENT_FUNDS\",\"error\":\"balance too low\"}''"

text \<open>The lines of the documentation's example of a stream, as the response hands them
  out; a line whose payload is not JSON; and a line whose payload is JSON and no mapping.\<close>

definition event_he :: string where
  "event_he = ''data: {\"id\":\"x\",\"choices\":[{\"index\":0,\"delta\":{\"content\":\"he\"}}]}\<newline>''"

definition event_llo :: string where
  "event_llo = ''data: {\"id\":\"x\",\"choices\":[{\"index\":0,\"delta\":{\"content\":\"llo\"}}]}\<newline>''"

definition event_done :: string where
  "event_done = ''data: [DONE]\<newline>''"

definition event_not_json :: string where
  "event_not_json = ''data: not-json\<newline>''"

definition event_number :: string where
  "event_number = ''data: 5\<newline>''"

text \<open>
  What the caller of the generator sees of a run of the inner loop over the whole text of
  a response, once the response has no further line: the chunks, and the end of the
  iteration or the exception.
\<close>

definition ended :: "ChatCompletionChunk list \<times> step \<Rightarrow> ChatCompletionChunk list \<times> stop" where
  "ended run =
     (fst run, case snd run of Continue pending \<Rightarrow> Exhausted | Return \<Rightarrow> Returned
                             | Raise e \<Rightarrow> Raised e)"

section \<open>Shaping: defaults, positions, determinism\<close>

lemma bind_err_Inr_iff:
  "bind_err m f = Inr y \<longleftrightarrow> (\<exists>x. m = Inr x \<and> f x = Inr y)"
  by (cases m) (simp_all add: bind_err_def)

lemma get_Inr_iff:
  "get v k dflt = Inr x \<longleftrightarrow> (\<exists>d. v = JObject d \<and> x = dict_get d k dflt)"
  by (cases v) auto

lemma dict_get_absent: "map_of d k = None \<Longrightarrow> dict_get d k dflt = dflt"
  by (simp add: dict_get_def)

lemma dict_get_present: "map_of d k = Some v \<Longrightarrow> dict_get d k dflt = v"
  by (simp add: dict_get_def)

lemma Choices_from_index:
  "Choices_from k cs = Inr xs \<Longrightarrow>
     length xs = length cs \<and>
     (\<forall>i < length cs. get (cs ! i) ''index'' (JInt (int (k + i))) = Inr (Choice.index (xs ! i)))"
proof (induction cs arbitrary: k xs)
  case Nil
  then show ?case by simp
next
  case (Cons c cs)
  from Cons.prems obtain x tl' where
    x: "Choice_of k c = Inr x" and tl': "Choices_from (Suc k) cs = Inr tl'" and xs: "xs = x # tl'"
    by (auto simp: bind_err_Inr_iff)
  from x have hd_ok: "get c ''index'' (JInt (int k)) = Inr (Choice.index x)"
    by (auto simp: Choice_of_def bind_err_Inr_iff)
  from Cons.IH [OF tl'] have len: "length tl' = length cs"
    and rest: "\<And>i. i < length cs \<Longrightarrow>
      get (cs ! i) ''index'' (JInt (int (Suc k + i))) = Inr (Choice.index (tl' ! i))"
    by simp_all
  show ?case
  proof (intro conjI allI impI)
    show "length xs = length (c # cs)" using len xs by simp
  next
    fix i assume "i < length (c # cs)"
    then show "get ((c # cs) ! i) ''index'' (JInt (int (k + i))) = Inr (Choice.index (xs ! i))"
      using hd_ok rest xs by (cases i) simp_all
  qed
qed

lemma StreamChoices_from_index:
  "StreamChoices_from k cs = Inr xs \<Longrightarrow>
     length xs = length cs \<and>
     (\<forall>i < length cs. get (cs ! i) ''index'' (JInt (int (k + i))) = Inr (StreamChoice.index (xs ! i)))"
proof (induction cs arbitrary: k xs)
  case Nil
  then show ?case by simp
next
  case (Cons c cs)
  from Cons.prems obtain x tl' where
    x: "StreamChoice_of k c = Inr x" and tl': "StreamChoices_from (Suc k) cs = Inr tl'"
    and xs: "xs = x # tl'"
    by (auto simp: bind_err_Inr_iff)
  from x have hd_ok: "get c ''index'' (JInt (int k)) = Inr (StreamChoice.index x)"
    by (auto simp: StreamChoice_of_def bind_err_Inr_iff)
  from Cons.IH [OF tl'] have len: "length tl' = length cs"
    and rest: "\<And>i. i < length cs \<Longrightarrow>
      get (cs ! i) ''index'' (JInt (int (Suc k + i))) = Inr (StreamChoice.index (tl' ! i))"
    by simp_all
  show ?case
  proof (intro conjI allI impI)
    show "length xs = length (c # cs)" using len xs by simp
  next
    fix i assume "i < length (c # cs)"
    then show "get ((c # cs) ! i) ''index'' (JInt (int (k + i))) = Inr (StreamChoice.index (xs ! i))"
      using hd_ok rest xs by (cases i) simp_all
  qed
qed

lemma ChatCompletion_init_choices:
  assumes "ChatCompletion_init (JObject d) = Inr r"
  shows "\<exists>items. iter (dict_get d ''choices'' (JArray [])) = Inr items
           \<and> Choices_from 0 items = Inr (ChatCompletion.choices r)"
  using assms by (auto simp: ChatCompletion_init_def bind_err_Inr_iff)

lemma ChatCompletionChunk_init_choices:
  assumes "ChatCompletionChunk_init (JObject d) = Inr r"
  shows "\<exists>items. iter (dict_get d ''choices'' (JArray [])) = Inr items
           \<and> StreamChoices_from 0 items = Inr (ChatCompletionChunk.choices r)"
  using assms by (auto simp: ChatCompletionChunk_init_def bind_err_Inr_iff)

text \<open>
  Claim C10. Where the \<^verbatim>\<open>choices\<close> array of the mapping is a list, every shaped
  \<^verbatim>\<open>Choice\<close> (in a \<^verbatim>\<open>ChatCompletion\<close>) and \<^verbatim>\<open>StreamChoice\<close> (in a
  \<^verbatim>\<open>ChatCompletionChunk\<close>) stands at the position of the element it was shaped from, and
  its index is the element's own \<^verbatim>\<open>index\<close> field when the element has one, and the
  zero-based position of the element otherwise.
\<close>

theorem choice_index_is_position_unless_given:
  assumes "map_of d ''choices'' = Some (JArray cs)" and "i < length cs"
  shows "(ChatCompletion_init (JObject d) = Inr r \<longrightarrow>
            length (ChatCompletion.choices r) = length cs
            \<and> (\<exists>c. cs ! i = JObject c
                  \<and> Choice.index (ChatCompletion.choices r ! i)
                      = (case map_of c ''index'' of None \<Rightarrow> JInt (int i) | Some v \<Rightarrow> v)))
       \<and> (ChatCompletionChunk_init (JObject d) = Inr k \<longrightarrow>
            length (ChatCompletionChunk.choices k) = length cs
            \<and> (\<exists>c. cs ! i = JObject c
                  \<and> StreamChoice.index (ChatCompletionChunk.choices k ! i)
                      = (case map_of c ''index'' of None \<Rightarrow> JInt (int i) | Some v \<Rightarrow> v)))"
proof (intro conjI impI)
  assume ok: "ChatCompletion_init (JObject d) = Inr r"
  from ChatCompletion_init_choices [OF ok] assms(1)
  have "Choices_from 0 cs = Inr (ChatCompletion.choices r)"
    by (simp add: dict_get_present)
  from Choices_from_index [OF this] assms(2)
  show "length (ChatCompletion.choices r) = length cs"
    and "\<exists>c. cs ! i = JObject c
           \<and> Choice.index (ChatCompletion.choices r ! i)
               = (case map_of c ''index'' of None \<Rightarrow> JInt (int i) | Some v \<Rightarrow> v)"
    by (auto simp: get_Inr_iff dict_get_def)
next
  assume ok: "ChatCompletionChunk_init (JObject d) = Inr k"
  from ChatCompletionChunk_init_choices [OF ok] assms(1)
  have "StreamChoices_from 0 cs = Inr (ChatCompletionChunk.choices k)"
    by (simp add: dict_get_present)
  from StreamChoices_from_index [OF this] assms(2)
  show "length (ChatCompletionChunk.choices k) = length cs"
    and "\<exists>c. cs ! i = JObject c
           \<and> StreamChoice.index (ChatCompletionChunk.choices k ! i)
               = (case map_of c ''index'' of None \<Rightarrow> JInt (int i) | Some v \<Rightarrow> v)"
    by (auto simp: get_Inr_iff dict_get_def)
qed

theorem choice_index_witness:
  "ChatCompletion_init (JObject [(''choices'', JArray [JObject [], JObject [(''index'', JInt 7)]])])
     = Inr \<lparr>ChatCompletion.data = JObject [(''choices'', JArray [JObject [], JObject [(''index'', JInt 7)]])],
            id' = JString [], object = JString ''chat.completion'', model = JString [],
            choices = [\<lparr>Choice.index = JInt 0,
                         message = \<lparr>Message.role = JString ''assistant'', content = JString []\<rparr>,
                         finish_reason = JNull\<rparr>,
                       \<lparr>Choice.index = JInt 7,
                         message = \<lparr>Message.role = JString ''assistant'', content = JString []\<rparr>,
                         finish_reason = JNull\<rparr>],
            usage = \<lparr>prompt_tokens = JInt 0, completion_tokens = JInt 0, total_tokens = JInt 0\<rparr>,
            cost = JNull, balance = JNull\<rparr>
   \<and> (\<exists>k. ChatCompletionChunk_init
              (JObject [(''choices'', JArray [JObject [], JObject [(''index'', JInt 7)]])]) = Inr k
          \<and> StreamChoice.index (ChatCompletionChunk.choices k ! 0) = JInt 0)"
proof -
  let ?cs = "[JObject [], JObject [(''index'', JInt 7)]]"
  let ?d = "[(''choices'', JArray ?cs)]"
  have h1: "map_of ?d ''choices'' = Some (JArray ?cs)" by simp
  have h2: "0 < length ?cs" by simp
  have a: "ChatCompletion_init (JObject ?d)
     = Inr \<lparr>ChatCompletion.data = JObject ?d,
            id' = JString [], object = JString ''chat.completion'', model = JString [],
            choices = [\<lparr>Choice.index = JInt 0,
                         message = \<lparr>Message.role = JString ''assistant'', content = JString []\<rparr>,
                         finish_reason = JNull\<rparr>,
                       \<lparr>Choice.index = JInt 7,
                         message = \<lparr>Message.role = JString ''assistant'', content = JString []\<rparr>,
                         finish_reason = JNull\<rparr>],
            usage = \<lparr>prompt_tokens = JInt 0, completion_tokens = JInt 0, total_tokens = JInt 0\<rparr>,
            cost = JNull, balance = JNull\<rparr>"
    by (simp add: ChatCompletion_init_def Choice_of_def bind_err_def dict_get_def)
  obtain k where b: "ChatCompletionChunk_init (JObject ?d) = Inr k"
    by (simp add: ChatCompletionChunk_init_def StreamChoice_of_def bind_err_def dict_get_def)
  from choice_index_is_position_unless_given [OF h1 h2, of _ k] b
  have "StreamChoice.index (ChatCompletionChunk.choices k ! 0) = JInt 0"
    by auto
  with a b show ?thesis by blast
qed

text \<open>
  Claim C8. In a \<^verbatim>\<open>ChatCompletion\<close> shaped from a mapping without a \<^verbatim>\<open>usage\<close> field,
  the three counters of the usage are 0; and where \<^verbatim>\<open>usage\<close> is a mapping, each of the
  three counters that it lacks is 0.
\<close>

theorem usage_counters_default_to_zero:
  assumes "ChatCompletion_init (JObject d) = Inr r"
  shows "(map_of d ''usage'' = None \<longrightarrow>
            usage r = \<lparr>prompt_tokens = JInt 0, completion_tokens = JInt 0, total_tokens = JInt 0\<rparr>)
       \<and> (\<forall>u. map_of d ''usage'' = Some (JObject u) \<longrightarrow>
            (map_of u ''prompt_tokens'' = None \<longrightarrow> prompt_tokens (usage r) = JInt 0)
            \<and> (map_of u ''completion_tokens'' = None \<longrightarrow> completion_tokens (usage r) = JInt 0)
            \<and> (map_of u ''total_tokens'' = None \<longrightarrow> total_tokens (usage r) = JInt 0))"
  using assms
  by (auto simp: ChatCompletion_init_def bind_err_Inr_iff get_Inr_iff dict_get_def)

theorem usage_defaults_witness:
  "ChatCompletion_init (JObject [(''id'', JString ''abc''), (''usage'', JObject [(''total_tokens'', JInt 4)])])
     = Inr \<lparr>ChatCompletion.data =
              JObject [(''id'', JString ''abc''), (''usage'', JObject [(''total_tokens'', JInt 4)])],
            id' = JString ''abc'', object = JString ''chat.completion'', model = JString [],
            choices = [],
            usage = \<lparr>prompt_tokens = JInt 0, completion_tokens = JInt 0, total_tokens = JInt 4\<rparr>,
            cost = JNull, balance = JNull\<rparr>
   \<and> (\<exists>r. ChatCompletion_init (JObject [(''id'', JString ''abc'')]) = Inr r
          \<and> usage r = \<lparr>prompt_tokens = JInt 0, completion_tokens = JInt 0, total_tokens = JInt 0\<rparr>)"
proof -
  let ?d = "[(''id'', JString ''abc'')]"
  have a: "ChatCompletion_init
             (JObject [(''id'', JString ''abc''), (''usage'', JObject [(''total_tokens'', JInt 4)])])
     = Inr \<lparr>ChatCompletion.data =
              JObject [(''id'', JString ''abc''), (''usage'', JObject [(''total_tokens'', JInt 4)])],
            id' = JString ''abc'', object = JString ''chat.completion'', model = JString [],
            choices = [],
            usage = \<lparr>prompt_tokens = JInt 0, completion_tokens = JInt 0, total_tokens = JInt 4\<rparr>,
            cost = JNull, balance = JNull\<rparr>"
    by (simp add: ChatCompletion_init_def bind_err_def dict_get_def)
  obtain r where b: "ChatCompletion_init (JObject ?d) = Inr r"
    by (simp add: ChatCompletion_init_def bind_err_def dict_get_def)
  have absent: "map_of ?d ''usage'' = None" by simp
  from usage_counters_default_to_zero [OF b] absent
  have "usage r = \<lparr>prompt_tokens = JInt 0, completion_tokens = JInt 0, total_tokens = JInt 0\<rparr>"
    by blast
  with a b show ?thesis by blast
qed














section \<open>The identity given at construction\<close>

lemma lower_char_hex:
  assumes "is_hex c \<or> c = CHR ''x''"
  shows "lower_char c = hex_lower c"
proof -
  have "list_all (\<lambda>c. lower_char c = hex_lower c) ''0123456789abcdefABCDEFx''"
    by code_simp
  then have all: "\<forall>c \<in> set ''0123456789abcdefABCDEFx''. lower_char c = hex_lower c"
    by (simp only: list_all_iff)
  from assms have "c \<in> set ''0123456789abcdefABCDEFx''"
    by (auto simp: is_hex_def)
  with all show ?thesis
    by (rule bspec)
qed

lemma hex_lower_hex: "is_hex c \<Longrightarrow> is_hex (hex_lower c)"
  by (auto simp: is_hex_def hex_lower_def)

lemma is_address_chars:
  assumes "is_address p" and "c \<in> set p"
  shows "is_hex c \<or> c = CHR ''x''"
proof -
  from assms(2) have "c \<in> set (take 2 p @ drop 2 p)"
    by (simp only: append_take_drop_id)
  then have "c \<in> set (take 2 p) \<or> c \<in> set (drop 2 p)"
    by (simp only: set_append Un_iff)
  then show ?thesis
  proof
    assume "c \<in> set (take 2 p)"
    moreover from assms(1) have "take 2 p = ''0x''"
      by (simp only: is_address_def)
    ultimately have "c \<in> set ''0x''"
      by (simp only:)
    then have "c = CHR ''0'' \<or> c = CHR ''x''"
      by simp
    then show ?thesis
      by (auto simp: is_hex_def)
  next
    assume "c \<in> set (drop 2 p)"
    moreover from assms(1) have "list_all is_hex (drop 2 p)"
      by (simp only: is_address_def)
    ultimately have "is_hex c"
      by (simp only: list_all_iff)
    then show ?thesis ..
  qed
qed

lemma lower_address:
  assumes "is_address p"
  shows "lower p = map hex_lower p"
  unfolding lower_def
proof (rule map_cong [OF refl])
  fix c
  assume "c \<in> set p"
  with assms have "is_hex c \<or> c = CHR ''x''"
    by (rule is_address_chars)
  then show "lower_char c = hex_lower c"
    by (rule lower_char_hex)
qed

lemma is_address_lower:
  assumes "is_address p"
  shows "is_address (map hex_lower p)"
proof -
  from assms have "take 2 p = ''0x''"
    by (simp only: is_address_def)
  then have "take 2 (map hex_lower p) = map hex_lower ''0x''"
    by (simp only: take_map)
  also have "map hex_lower ''0x'' = ''0x''"
    by (simp add: hex_lower_def)
  finally have pre: "take 2 (map hex_lower p) = ''0x''" .
  from assms have "list_all is_hex (drop 2 p)"
    by (simp only: is_address_def)
  then have rest: "list_all is_hex (drop 2 (map hex_lower p))"
    by (simp only: drop_map) (simp add: list_all_iff hex_lower_hex)
  from assms have "length (map hex_lower p) = 42"
    by (simp only: is_address_def length_map)
  with pre rest show ?thesis
    by (simp only: is_address_def simp_thms)
qed

text \<open>
  Claim C3. For every string that is \<^verbatim>\<open>0x\<close> and then exactly 40 hexadecimal characters
  in any letter case, the construction of the client succeeds, the identity it stores is
  the lowercase form of that string (again of that pattern), and that is the value of the
  \<^verbatim>\<open>X-Payer\<close> header of the requests the client builds.
\<close>

theorem valid_identity_accepted_and_lowercased:
  assumes "is_address p"
  shows "\<exists>self. Paymodel_init p b = Inr self
           \<and> payer self = map hex_lower p
           \<and> is_address (payer self)
           \<and> map_of (headers (get_request self path)) ''X-Payer'' = Some (map hex_lower p)
           \<and> map_of (headers (post_request self path v)) ''X-Payer'' = Some (map hex_lower p)"
proof -
  from assms have len: "length p = 42" and pre: "take 2 p = ''0x''"
    by (simp_all only: is_address_def)
  have "length ''0x'' = 2"
    by simp
  with pre have sw: "startswith p ''0x''"
    by (simp only: startswith_def)
  from len have ne: "p \<noteq> []"
    by auto
  define self where "self = \<lparr>payer = lower p,
      base_url = rstrip (case b of None \<Rightarrow> DEFAULT_BASE_URL
                         | Some u \<Rightarrow> if u = [] then DEFAULT_BASE_URL else u) ''/''\<rparr>"
  from len sw ne have init: "Paymodel_init p b = Inr self"
    by (simp only: Paymodel_init_def self_def simp_thms if_False)
  have "payer self = lower p"
    by (simp add: self_def)
  with assms have low: "payer self = map hex_lower p"
    by (simp only: lower_address)
  with assms have adr: "is_address (payer self)"
    by (simp only: is_address_lower)
  from low have "map_of (headers (get_request self path)) ''X-Payer'' = Some (map hex_lower p)"
    and "map_of (headers (post_request self path v)) ''X-Payer'' = Some (map hex_lower p)"
    by (simp_all add: get_request_def post_request_def)
  with init low adr show ?thesis
    by blast
qed

theorem valid_identity_witness:
  "is_address ''0xAbCdEf0123456789abcdefABCDEF0123456789Ab''
   \<and> (\<exists>self. Paymodel_init ''0xAbCdEf0123456789abcdefABCDEF0123456789Ab'' None = Inr self
          \<and> payer self = ''0xabcdef0123456789abcdefabcdef0123456789ab'')"
proof -
  let ?p = "''0xAbCdEf0123456789abcdefABCDEF0123456789Ab''"
  have a: "is_address ?p"
    by code_simp
  have l: "map hex_lower ?p = ''0xabcdef0123456789abcdefabcdef0123456789ab''"
    by code_simp
  from valid_identity_accepted_and_lowercased [OF a, of None]
  obtain self where "Paymodel_init ?p None = Inr self" and "payer self = map hex_lower ?p"
    by blast
  with l have "Paymodel_init ?p None = Inr self
      \<and> payer self = ''0xabcdef0123456789abcdefabcdef0123456789ab''"
    by (simp only: simp_thms)
  with a show ?thesis
    by blast
qed

text \<open>The constructor raises \<^verbatim>\<open>ValueError\<close> for an empty string, a string without the
  prefix \<^verbatim>\<open>0x\<close>, and a string whose length is not 42.\<close>

lemma malformed_prefix_or_length_rejected:
  "p = [] \<or> \<not> startswith p ''0x'' \<or> length p \<noteq> 42 \<Longrightarrow>
     Paymodel_init p b = Inl (ValueError ''payer must be a valid Ethereum address (0x + 40 hex chars)'')"
  by (simp add: Paymodel_init_def)

text \<open>
  Claim C1. The constructor checks the prefix and the length of the identity and nothing
  about the 40 characters behind the prefix, while its own error message asks for
  \<^verbatim>\<open>0x + 40 hex chars\<close>: the string of \<^verbatim>\<open>0x\<close> and forty letters \<^verbatim>\<open>z\<close> does not match the
  pattern, and the constructor accepts it and stores it.
\<close>

theorem non_hex_identity_is_accepted:
  "\<not> is_address ''0xzzzzzzzzzzzzzzzzzzzzzzzzzzzzzzzzzzzzzzzz''
   \<and> Paymodel_init ''0xzzzzzzzzzzzzzzzzzzzzzzzzzzzzzzzzzzzzzzzz'' None
       = Inr \<lparr>payer = ''0xzzzzzzzzzzzzzzzzzzzzzzzzzzzzzzzzzzzzzzzz'',
              base_url = ''https://paymodel.bflynn4141.workers.dev''\<rparr>"
proof -
  have "\<not> is_address ''0xzzzzzzzzzzzzzzzzzzzzzzzzzzzzzzzzzzzzzzzz''"
    by code_simp
  moreover have "Paymodel_init ''0xzzzzzzzzzzzzzzzzzzzzzzzzzzzzzzzzzzzzzzzz'' None
       = Inr \<lparr>payer = ''0xzzzzzzzzzzzzzzzzzzzzzzzzzzzzzzzzzzzzzzzz'',
              base_url = ''https://paymodel.bflynn4141.workers.dev''\<rparr>"
    by code_simp
  ultimately show ?thesis
    by (rule conjI)
qed

theorem non_hex_identity_witness:
  "\<exists>self. Paymodel_init ''0xzzzzzzzzzzzzzzzzzzzzzzzzzzzzzzzzzzzzzzzz'' None = Inr self
      \<and> payer self = ''0xzzzzzzzzzzzzzzzzzzzzzzzzzzzzzzzzzzzzzzzz''"
proof -
  from non_hex_identity_is_accepted
  have "Paymodel_init ''0xzzzzzzzzzzzzzzzzzzzzzzzzzzzzzzzzzzzzzzzz'' None
          = Inr \<lparr>payer = ''0xzzzzzzzzzzzzzzzzzzzzzzzzzzzzzzzzzzzzzzzz'',
                 base_url = ''https://paymodel.bflynn4141.workers.dev''\<rparr>"
    by (rule conjunct2)
  then show ?thesis
    by simp
qed

section \<open>Error mapping of the transport\<close>

lemma handle_reply_HTTPError_fields:
  assumes "loads doc = Inr (JObject b)"
    and "map_of b ''code'' = Some c" and "map_of b ''error'' = Some m"
  shows "handle_reply loads (HTTPError status reason doc) = Inl (PaymodelError c m (JObject b))"
  using assms by (simp add: handle_reply_def bind_err_def dict_get_def)

lemma handle_reply_HTTPError_unparsable:
  "loads doc = Inl e \<Longrightarrow> handle_reply loads (HTTPError status reason doc) = Inl e"
  by (simp add: handle_reply_def)

text \<open>Where the parsed body is a JSON object, a missing \<^verbatim>\<open>code\<close> becomes \<^verbatim>\<open>UNKNOWN\<close> and a
  missing \<^verbatim>\<open>error\<close> becomes the text of the \<^verbatim>\<open>HTTPError\<close>.\<close>

lemma handle_reply_HTTPError_defaults:
  assumes "loads doc = Inr (JObject b)"
  shows "handle_reply loads (HTTPError status reason doc)
           = Inl (PaymodelError (dict_get b ''code'' (JString ''UNKNOWN''))
                    (dict_get b ''error'' (JString (HTTPError_str status reason))) (JObject b))"
  using assms by (simp add: handle_reply_def bind_err_def)

text \<open>
  Where the body of a response with a status outside 200-299 parses as a JSON object with
  the fields \<^verbatim>\<open>code\<close> and \<^verbatim>\<open>error\<close>, \<^verbatim>\<open>_get\<close> and \<^verbatim>\<open>_post\<close>, and with them the
  chat completion without streaming, raise a \<^verbatim>\<open>PaymodelError\<close> whose code is the value
  of \<^verbatim>\<open>code\<close>, whose message is the value of \<^verbatim>\<open>error\<close> and whose data is the whole
  parsed body.
\<close>

lemma error_body_is_exposed:
  assumes "loads doc = Inr (JObject b)"
    and "map_of b ''code'' = Some c" and "map_of b ''error'' = Some m"
  shows "(urlopen (get_request self path) = HTTPError status reason doc \<longrightarrow>
            Paymodel_get loads urlopen self path = Inl (PaymodelError c m (JObject b)))
       \<and> (urlopen (post_request self path v) = HTTPError status reason doc \<longrightarrow>
            Paymodel_post loads urlopen self path v = Inl (PaymodelError c m (JObject b)))
       \<and> (urlopen (post_request self ''/v1/chat/completions'' v) = HTTPError status reason doc \<longrightarrow>
            ChatCompletions_request loads urlopen self v = Inl (PaymodelError c m (JObject b)))"
  using handle_reply_HTTPError_fields [of loads doc b c m status reason] assms
  by (simp add: Paymodel_get_def Paymodel_post_def ChatCompletions_request_def bind_err_def)

lemma json_loads_insufficient_funds:
  "json_loads insufficient_funds
     = Inr (JObject [(''code'', JString ''INSUFFICIENT_FUNDS''), (''error'', JString ''balance too low'')])"
  by code_simp

text \<open>
  Claim C4. The response with the status 402 and the body of a refused payment, with the
  code \<^verbatim>\<open>INSUFFICIENT_FUNDS\<close> and the message \<^verbatim>\<open>balance too low\<close>. Sent in answer to
  the chat completion without streaming, it raises the \<^verbatim>\<open>PaymodelError\<close> with that
  code, that message and the parsed body. Sent in answer to the chat completion with
  streaming, it raises no \<^verbatim>\<open>PaymodelError\<close>: \<^verbatim>\<open>_stream\<close> opens the request outside
  any handler, and at the first step of the iteration the \<^verbatim>\<open>HTTPError\<close> of
  \<^verbatim>\<open>urlopen\<close> escapes as it is, with the body unread, so that neither the code nor the
  message nor the parsed body is exposed.
\<close>

theorem streaming_call_lets_HTTPError_escape:
  "Paymodel_post json_loads (\<lambda>req. HTTPError 402 ''Payment Required'' insufficient_funds)
      \<lparr>payer = ''0xabcdef0123456789abcdefabcdef0123456789ab'', base_url = DEFAULT_BASE_URL\<rparr>
      ''/v1/chat/completions'' (JObject [(''stream'', JBool False)])
     = Inl (PaymodelError (JString ''INSUFFICIENT_FUNDS'') (JString ''balance too low'')
              (JObject [(''code'', JString ''INSUFFICIENT_FUNDS''),
                        (''error'', JString ''balance too low'')]))
   \<and> ChatCompletions_stream_call json_loads Some
      (\<lambda>req. StreamHTTPError 402 ''Payment Required'' insufficient_funds)
      \<lparr>payer = ''0xabcdef0123456789abcdefabcdef0123456789ab'', base_url = DEFAULT_BASE_URL\<rparr>
      (JObject [(''stream'', JBool True)])
     = ([], Raised (HTTPErrorRaised 402 ''Payment Required'' insufficient_funds))"
proof (intro conjI)
  let ?b = "[(''code'', JString ''INSUFFICIENT_FUNDS''), (''error'', JString ''balance too low'')]"
  have c: "map_of ?b ''code'' = Some (JString ''INSUFFICIENT_FUNDS'')"
    by simp
  have m: "map_of ?b ''error'' = Some (JString ''balance too low'')"
    by simp
  from error_body_is_exposed [of json_loads insufficient_funds ?b _ _
      "\<lambda>req. HTTPError 402 ''Payment Required'' insufficient_funds" _ _ 402 "''Payment Required''",
      OF json_loads_insufficient_funds c m]
  show "Paymodel_post json_loads (\<lambda>req. HTTPError 402 ''Payment Required'' insufficient_funds)
      \<lparr>payer = ''0xabcdef0123456789abcdefabcdef0123456789ab'', base_url = DEFAULT_BASE_URL\<rparr>
      ''/v1/chat/completions'' (JObject [(''stream'', JBool False)])
     = Inl (PaymodelError (JString ''INSUFFICIENT_FUNDS'') (JString ''balance too low'')
              (JObject ?b))"
    by simp
next
  show "ChatCompletions_stream_call json_loads Some
      (\<lambda>req. StreamHTTPError 402 ''Payment Required'' insufficient_funds)
      \<lparr>payer = ''0xabcdef0123456789abcdefabcdef0123456789ab'', base_url = DEFAULT_BASE_URL\<rparr>
      (JObject [(''stream'', JBool True)])
     = ([], Raised (HTTPErrorRaised 402 ''Payment Required'' insufficient_funds))"
    by (simp add: ChatCompletions_stream_call_def)
qed

text \<open>
  Claim C2. The handler of \<^verbatim>\<open>HTTPError\<close> parses the body before it builds the
  \<^verbatim>\<open>PaymodelError\<close>, and nothing catches what the parser raises there: for an empty
  body, and for a body that is not JSON, \<^verbatim>\<open>_get\<close> and \<^verbatim>\<open>_post\<close> raise
  \<^verbatim>\<open>JSONDecodeError\<close>, not a \<^verbatim>\<open>PaymodelError\<close> with the code \<^verbatim>\<open>UNKNOWN\<close>.
\<close>

theorem empty_error_body_raises_JSONDecodeError:
  "Paymodel_get json_loads (\<lambda>req. HTTPError 500 ''Internal Server Error'' [])
      \<lparr>payer = ''0xabcdef0123456789abcdefabcdef0123456789ab'', base_url = DEFAULT_BASE_URL\<rparr>
      ''/v1/balance''
     = Inl JSONDecodeError
   \<and> Paymodel_post json_loads (\<lambda>req. HTTPError 502 ''Bad Gateway'' ''<html>Bad Gateway</html>'')
      \<lparr>payer = ''0xabcdef0123456789abcdefabcdef0123456789ab'', base_url = DEFAULT_BASE_URL\<rparr>
      ''/v1/deposit'' (JObject [(''txHash'', JString ''0x01'')])
     = Inl JSONDecodeError"
proof -
  have "json_loads [] = Inl JSONDecodeError"
    by code_simp
  moreover have "json_loads ''<html>Bad Gateway</html>'' = Inl JSONDecodeError"
    by code_simp
  ultimately show ?thesis
    by (simp add: Paymodel_get_def Paymodel_post_def handle_reply_def)
qed

section \<open>The stream decoder: sentinel, example, unparsable events\<close>

lemma split_newline_line:
  assumes "newline \<notin> set line"
  shows "split_newline (line @ newline # rest) = (line, rest)"
proof -
  from assms have "\<And>c. c \<in> set line \<Longrightarrow> c \<noteq> newline"
    by auto
  then have "takeWhile (\<lambda>c. c \<noteq> newline) (line @ newline # rest) = line"
    and "dropWhile (\<lambda>c. c \<noteq> newline) (line @ newline # rest) = newline # rest"
    by (simp_all add: takeWhile_append2 dropWhile_append2)
  then show ?thesis
    by (simp add: split_newline_def)
qed

lemma split_newline_append:
  assumes "newline \<in> set a"
  shows "split_newline (a @ t) = (fst (split_newline a), snd (split_newline a) @ t)"
proof -
  from assms have t: "takeWhile (\<lambda>c. c \<noteq> newline) (a @ t) = takeWhile (\<lambda>c. c \<noteq> newline) a"
    by (simp add: takeWhile_append1)
  from assms have d: "dropWhile (\<lambda>c. c \<noteq> newline) (a @ t) = dropWhile (\<lambda>c. c \<noteq> newline) a @ t"
    by (simp add: dropWhile_append1)
  from assms have "dropWhile (\<lambda>c. c \<noteq> newline) a \<noteq> []"
    by (simp add: dropWhile_eq_Nil_conv)
  then have "tl (dropWhile (\<lambda>c. c \<noteq> newline) a @ t) = tl (dropWhile (\<lambda>c. c \<noteq> newline) a) @ t"
    by simp
  with t d show ?thesis
    by (simp add: split_newline_def)
qed

lemma snd_split_newline_shorter:
  assumes "newline \<in> set b"
  shows "length (snd (split_newline b)) < length b"
proof -
  from assms have "dropWhile (\<lambda>c. c \<noteq> newline) b \<noteq> []"
    by (simp add: dropWhile_eq_Nil_conv)
  then have "length (tl (dropWhile (\<lambda>c. c \<noteq> newline) b))
               < length (dropWhile (\<lambda>c. c \<noteq> newline) b)"
    by (cases "dropWhile (\<lambda>c. c \<noteq> newline) b") simp_all
  also have "\<dots> \<le> length b"
    by (rule length_dropWhile_le)
  finally show ?thesis
    by (simp add: split_newline_def)
qed

lemma drain_without_newline: "newline \<notin> set b \<Longrightarrow> drain loads b = ([], Continue b)"
  by (subst drain.simps) simp

lemma drain_step:
  assumes "newline \<in> set b"
  shows "drain loads b =
           (if \<not> startswith (strip (fst (split_newline b))) ''data: ''
            then drain loads (snd (split_newline b))
            else if drop 6 (strip (fst (split_newline b))) = ''[DONE]'' then ([], Return)
            else (case loads (drop 6 (strip (fst (split_newline b)))) of
                    Inl e \<Rightarrow>
                      if e = JSONDecodeError then drain loads (snd (split_newline b))
                      else ([], Raise e)
                  | Inr chunk_data \<Rightarrow>
                      (case ChatCompletionChunk_init chunk_data of
                         Inl e \<Rightarrow> ([], Raise e)
                       | Inr chunk \<Rightarrow>
                           (chunk # fst (drain loads (snd (split_newline b))),
                            snd (drain loads (snd (split_newline b)))))))"
  using assms by (subst drain.simps) (simp add: Let_def)

lemma drain_line:
  assumes "newline \<notin> set line"
  shows "drain loads (line @ newline # rest) =
           (if \<not> startswith (strip line) ''data: '' then drain loads rest
            else if drop 6 (strip line) = ''[DONE]'' then ([], Return)
            else (case loads (drop 6 (strip line)) of
                    Inl e \<Rightarrow> if e = JSONDecodeError then drain loads rest else ([], Raise e)
                  | Inr chunk_data \<Rightarrow>
                      (case ChatCompletionChunk_init chunk_data of
                         Inl e \<Rightarrow> ([], Raise e)
                       | Inr chunk \<Rightarrow>
                           (chunk # fst (drain loads rest), snd (drain loads rest)))))"
proof -
  have "newline \<in> set (line @ newline # rest)"
    by simp
  then show ?thesis
    by (simp only: drain_step split_newline_line [OF assms] fst_conv snd_conv)
qed

lemma drain_Continue_no_newline:
  "drain loads b = (cs, Continue pending) \<Longrightarrow> newline \<notin> set pending"
proof (induction "length b" arbitrary: b cs rule: less_induct)
  case less
  show ?case
  proof (cases "newline \<in> set b")
    case False
    with less.prems show ?thesis
      by (simp add: drain_without_newline)
  next
    case True
    then have shorter: "length (snd (split_newline b)) < length b"
      by (rule snd_split_newline_shorter)
    obtain cs' st where d: "drain loads (snd (split_newline b)) = (cs', st)"
      by (cases "drain loads (snd (split_newline b))")
    from less.prems have "st = Continue pending"
      unfolding drain_step [OF True] d
      by (auto split: if_splits sum.splits)
    with d have "drain loads (snd (split_newline b)) = (cs', Continue pending)"
      by simp
    with shorter show ?thesis
      by (rule less.hyps)
  qed
qed

text \<open>The loop on a text and what follows it: where the loop on the text ends waiting,
  it goes on with the pending rest and what follows; where it returned or raised, what
  follows changes nothing.\<close>

text \<open>
  The inner loop on a text in two parts: it runs on the first part, and unless it has
  stopped there, it runs on what the first part left in the buffer followed by the second
  part.
\<close>

lemma drain_append:
  "drain loads (a @ t) =
     (case drain loads a of
        (cs, Continue pending) \<Rightarrow>
          (cs @ fst (drain loads (pending @ t)), snd (drain loads (pending @ t)))
      | (cs, Return) \<Rightarrow> (cs, Return)
      | (cs, Raise e) \<Rightarrow> (cs, Raise e))"
proof (induction "length a" arbitrary: a rule: less_induct)
  case less
  show ?case
  proof (cases "newline \<in> set a")
    case False
    then show ?thesis
      by (simp add: drain_without_newline)
  next
    case True
    then have "length (snd (split_newline a)) < length a"
      by (rule snd_split_newline_shorter)
    then have IH: "drain loads (snd (split_newline a) @ t) =
       (case drain loads (snd (split_newline a)) of
          (cs, Continue pending) \<Rightarrow>
            (cs @ fst (drain loads (pending @ t)), snd (drain loads (pending @ t)))
        | (cs, Return) \<Rightarrow> (cs, Return)
        | (cs, Raise e) \<Rightarrow> (cs, Raise e))"
      by (rule less.hyps)
    from True have in_both: "newline \<in> set (a @ t)"
      by simp
    obtain cs st where d: "drain loads (snd (split_newline a)) = (cs, st)"
      by (cases "drain loads (snd (split_newline a))")
    show ?thesis
      unfolding drain_step [OF in_both] drain_step [OF True] split_newline_append [OF True]
        fst_conv snd_conv IH d
      by (cases st) (simp_all split: sum.splits)
  qed
qed

lemma drain_sentinel_line:
  assumes "newline \<notin> set line" and "strip line = ''data: [DONE]''"
  shows "drain loads (line @ newline # rest) = ([], Return)"
proof -
  have "startswith ''data: [DONE]'' ''data: ''" and "drop 6 ''data: [DONE]'' = ''[DONE]''"
    by (simp_all add: startswith_def)
  with assms show ?thesis
    by (simp only: drain_line simp_thms if_True if_False)
qed

lemma drain_unparsable_line:
  assumes "newline \<notin> set line" and "strip line = ''data: '' @ payload"
    and "payload \<noteq> ''[DONE]''" and "loads payload = Inl JSONDecodeError"
  shows "drain loads (line @ newline # rest) = drain loads rest"
proof -
  have "startswith (''data: '' @ payload) ''data: ''" and "drop 6 (''data: '' @ payload) = payload"
    by (simp_all add: startswith_def)
  with assms show ?thesis
    by (simp add: drain_line)
qed

text \<open>An exception of the parser other than \<^verbatim>\<open>JSONDecodeError\<close>, such as the
  \<^verbatim>\<open>RecursionError\<close> on a payload nested too deep, is not caught: it ends the run.\<close>

lemma drain_escaping_exception:
  assumes "newline \<notin> set line" and "strip line = ''data: '' @ payload"
    and "payload \<noteq> ''[DONE]''" and "loads payload = Inl e" and "e \<noteq> JSONDecodeError"
  shows "drain loads (line @ newline # rest) = ([], Raise e)"
proof -
  have "startswith (''data: '' @ payload) ''data: ''" and "drop 6 (''data: '' @ payload) = payload"
    by (simp_all add: startswith_def)
  with assms show ?thesis
    by (simp add: drain_line)
qed

lemma drain_ignores_parse_of_sentinel:
  "drain (loads(''[DONE]'' := v)) b = drain loads b"
proof (induction "length b" arbitrary: b rule: less_induct)
  case less
  show ?case
  proof (cases "newline \<in> set b")
    case False
    then show ?thesis
      by (simp add: drain_without_newline)
  next
    case True
    then have "length (snd (split_newline b)) < length b"
      by (rule snd_split_newline_shorter)
    then have IH: "drain (loads(''[DONE]'' := v)) (snd (split_newline b))
                     = drain loads (snd (split_newline b))"
      by (rule less.hyps)
    show ?thesis
      unfolding drain_step [OF True] IH by simp
  qed
qed

lemma stream_loop_ignores_parse_of_sentinel:
  "stream_loop (loads(''[DONE]'' := v)) decode buffer resp = stream_loop loads decode buffer resp"
proof (induction resp arbitrary: buffer)
  case Nil
  show ?case by simp
next
  case (Cons raw_line resp)
  show ?case
    by (simp only: stream_loop.simps drain_ignores_parse_of_sentinel Cons.IH)
qed

lemma stream_loop_Returned_stable:
  "stream_loop loads decode buffer resp = (chunks, Returned) \<Longrightarrow>
     stream_loop loads decode buffer (resp @ later) = (chunks, Returned)"
proof (induction resp arbitrary: buffer chunks)
  case Nil
  then show ?case by simp
next
  case (Cons raw_line resp)
  show ?case
  proof (cases "decode raw_line")
    case None
    with Cons.prems show ?thesis by simp
  next
    case (Some line)
    obtain cs st where d: "drain loads (buffer @ line) = (cs, st)"
      by (cases "drain loads (buffer @ line)")
    show ?thesis
    proof (cases st)
      case (Continue buffer')
      obtain cs' out where r: "stream_loop loads decode buffer' resp = (cs', out)"
        by (cases "stream_loop loads decode buffer' resp")
      with Cons.prems Some d Continue have "out = Returned" and "chunks = cs @ cs'"
        by simp_all
      with r have "stream_loop loads decode buffer' (resp @ later) = (cs', Returned)"
        by (simp add: Cons.IH)
      with Some d Continue \<open>chunks = cs @ cs'\<close> show ?thesis
        by simp
    next
      case Return
      with Cons.prems Some d show ?thesis by simp
    next
      case (Raise e)
      with Cons.prems Some d show ?thesis by simp
    qed
  qed
qed

text \<open>The generator on a response whose lines all decode: it yields what the loop yields
  on the whole text, however the text is cut into lines.\<close>

text \<open>
  The generator depends on the text of the response only, not on how the response cuts
  it into lines: its run is the run of the inner loop on the whole text.
\<close>

lemma stream_loop_concat:
  "newline \<notin> set buffer \<Longrightarrow> map decode resp = map Some texts \<Longrightarrow>
     stream_loop loads decode buffer resp = ended (drain loads (buffer @ concat texts))"
proof (induction resp arbitrary: buffer texts)
  case Nil
  then show ?case
    by (simp add: drain_without_newline ended_def)
next
  case (Cons raw_line resp)
  from Cons.prems(2) obtain t ts where
    texts: "texts = t # ts" and t: "decode raw_line = Some t"
    and ts: "map decode resp = map Some ts"
    by (cases texts) auto
  obtain cs st where d: "drain loads (buffer @ t) = (cs, st)"
    by (cases "drain loads (buffer @ t)")
  have whole: "drain loads (buffer @ concat texts) =
      (case drain loads (buffer @ t) of
         (cs, Continue pending) \<Rightarrow>
           (cs @ fst (drain loads (pending @ concat ts)), snd (drain loads (pending @ concat ts)))
       | (cs, Return) \<Rightarrow> (cs, Return)
       | (cs, Raise e) \<Rightarrow> (cs, Raise e))"
    using drain_append [of loads "buffer @ t" "concat ts"] by (simp add: texts)
  show ?case
  proof (cases st)
    case (Continue pending)
    with d have "newline \<notin> set pending"
      by (simp add: drain_Continue_no_newline)
    then have "stream_loop loads decode pending resp = ended (drain loads (pending @ concat ts))"
      using ts by (rule Cons.IH)
    with t d Continue whole show ?thesis
      by (simp add: ended_def)
  next
    case Return
    with t d whole show ?thesis
      by (simp add: ended_def)
  next
    case (Raise e)
    with t d whole show ?thesis
      by (simp add: ended_def)
  qed
qed

text \<open>
  Claim C5. For every input stream: let the decoder have processed the text \<open>before\<close>
  without stopping, with the chunks \<open>chunks\<close> yielded and the text \<open>pending\<close> left in
  the buffer, and let the next line that it extracts (\<open>pending\<close> and then \<open>line\<close>) have
  the trimmed form \<^verbatim>\<open>data: [DONE]\<close>. Then the loop returns with exactly the chunks
  yielded before that line, whatever text \<open>rest\<close> stands behind the line; and on every
  response whose lines make up this text the generator returns with exactly those chunks,
  whatever further lines \<open>later\<close> the response holds. The sentinel payload is never passed
  to the JSON parser: no run of the generator depends on what the parser answers to the
  text \<^verbatim>\<open>[DONE]\<close>. In the witness the sentinel stands behind a line that yields a chunk
  and before two lines that would yield one.
\<close>

theorem sentinel_ends_the_stream:
  "(drain loads before = (chunks, Continue pending)
      \<and> newline \<notin> set line \<and> strip (pending @ line) = ''data: [DONE]'' \<longrightarrow>
      drain loads (before @ line @ newline # rest) = (chunks, Return)
      \<and> (map decode resp = map Some texts \<and> concat texts = before @ line @ newline # rest \<longrightarrow>
           ChatCompletions_stream loads decode (resp @ later) = (chunks, Returned)))
   \<and> ChatCompletions_stream (loads(''[DONE]'' := v)) decode resp
       = ChatCompletions_stream loads decode resp"
proof (intro conjI impI)
  assume "drain loads before = (chunks, Continue pending)
      \<and> newline \<notin> set line \<and> strip (pending @ line) = ''data: [DONE]''"
  then have before: "drain loads before = (chunks, Continue pending)"
    and line: "newline \<notin> set line"
    and trimmed: "strip (pending @ line) = ''data: [DONE]''"
    by simp_all
  from before have "newline \<notin> set pending"
    by (rule drain_Continue_no_newline)
  with line have "newline \<notin> set (pending @ line)"
    by simp
  then have "drain loads ((pending @ line) @ newline # rest) = ([], Return)"
    using trimmed by (rule drain_sentinel_line)
  with before show whole: "drain loads (before @ line @ newline # rest) = (chunks, Return)"
    using drain_append [of loads before "line @ newline # rest"] by simp
  assume "map decode resp = map Some texts \<and> concat texts = before @ line @ newline # rest"
  then have "stream_loop loads decode [] resp = ended (drain loads ([] @ concat texts))"
    and "concat texts = before @ line @ newline # rest"
    by (simp_all add: stream_loop_concat)
  with whole have "stream_loop loads decode [] resp = (chunks, Returned)"
    by (simp add: ended_def)
  then have "stream_loop loads decode [] (resp @ later) = (chunks, Returned)"
    by (rule stream_loop_Returned_stable)
  then show "ChatCompletions_stream loads decode (resp @ later) = (chunks, Returned)"
    by (simp only: ChatCompletions_stream_def)
next
  show "ChatCompletions_stream (loads(''[DONE]'' := v)) decode resp
          = ChatCompletions_stream loads decode resp"
    by (simp only: ChatCompletions_stream_def stream_loop_ignores_parse_of_sentinel)
qed

theorem sentinel_witness:
  "drain json_loads (event_he @ ''  data: [DONE] '' @ newline # event_llo)
     = ([\<lparr>ChatCompletionChunk.id' = JString ''x'', object = JString ''chat.completion.chunk'',
          model = JString [],
          choices = [\<lparr>StreamChoice.index = JInt 0,
                       delta = \<lparr>DeltaMessage.role = JNull, content = JString ''he''\<rparr>,
                       finish_reason = JNull\<rparr>]\<rparr>],
        Return)
   \<and> ChatCompletions_stream json_loads Some ([event_he, event_done, event_llo] @ [event_he])
     = ([\<lparr>ChatCompletionChunk.id' = JString ''x'', object = JString ''chat.completion.chunk'',
          model = JString [],
          choices = [\<lparr>StreamChoice.index = JInt 0,
                       delta = \<lparr>DeltaMessage.role = JNull, content = JString ''he''\<rparr>,
                       finish_reason = JNull\<rparr>]\<rparr>],
        Returned)"
proof -
  let ?he = "\<lparr>ChatCompletionChunk.id' = JString ''x'', object = JString ''chat.completion.chunk'',
          model = JString [],
          choices = [\<lparr>StreamChoice.index = JInt 0,
                       delta = \<lparr>DeltaMessage.role = JNull, content = JString ''he''\<rparr>,
                       finish_reason = JNull\<rparr>]\<rparr>"
  have before: "drain json_loads event_he = ([?he], Continue [])"
    by code_simp
  have line1: "newline \<notin> set ''  data: [DONE] ''"
    and trimmed1: "strip ([] @ ''  data: [DONE] '') = ''data: [DONE]''"
    by code_simp+
  have line2: "newline \<notin> set ''data: [DONE]''"
    and trimmed2: "strip ([] @ ''data: [DONE]'') = ''data: [DONE]''"
    by code_simp+
  have texts: "map Some [event_he, event_done, event_llo] = map Some [event_he, event_done, event_llo]"
    and whole: "concat [event_he, event_done, event_llo]
                  = event_he @ ''data: [DONE]'' @ newline # event_llo"
    by (simp_all add: event_done_def newline_def)
  from sentinel_ends_the_stream [where loads = json_loads and before = event_he
      and chunks = "[?he]" and pending = "[]" and line = "''  data: [DONE] ''"
      and rest = event_llo] before line1 trimmed1
  have a: "drain json_loads (event_he @ ''  data: [DONE] '' @ newline # event_llo)
             = ([?he], Return)"
    by blast
  from sentinel_ends_the_stream [where loads = json_loads and before = event_he
      and chunks = "[?he]" and pending = "[]" and line = "''data: [DONE]''"
      and rest = event_llo and decode = Some and resp = "[event_he, event_done, event_llo]"
      and texts = "[event_he, event_done, event_llo]" and later = "[event_he]"]
    before line2 trimmed2 texts whole
  have b: "ChatCompletions_stream json_loads Some ([event_he, event_done, event_llo] @ [event_he])
             = ([?he], Returned)"
    by blast
  from a b show ?thesis
    by (intro conjI)
qed

text \<open>
  Claim C6. On the three lines of the documented example, each ended by a newline, the
  generator yields exactly two chunks, each with one choice, whose delta contents are
  \<^verbatim>\<open>he\<close> and \<^verbatim>\<open>llo\<close>, and then returns at the sentinel.
\<close>

theorem documented_stream_yields_two_chunks:
  "ChatCompletions_stream json_loads Some [event_he, event_llo, event_done]
     = ([\<lparr>ChatCompletionChunk.id' = JString ''x'', object = JString ''chat.completion.chunk'',
          model = JString [],
          choices = [\<lparr>StreamChoice.index = JInt 0,
                       delta = \<lparr>DeltaMessage.role = JNull, content = JString ''he''\<rparr>,
                       finish_reason = JNull\<rparr>]\<rparr>,
         \<lparr>ChatCompletionChunk.id' = JString ''x'', object = JString ''chat.completion.chunk'',
          model = JString [],
          choices = [\<lparr>StreamChoice.index = JInt 0,
                       delta = \<lparr>DeltaMessage.role = JNull, content = JString ''llo''\<rparr>,
                       finish_reason = JNull\<rparr>]\<rparr>],
        Returned)"
  by code_simp

text \<open>
  Claim C7, amended. Let the decoder have processed the text \<open>before\<close> without stopping,
  and let the next line that it extracts have a payload behind \<^verbatim>\<open>data: \<close> that is not
  the sentinel and at which the parser raises \<^verbatim>\<open>JSONDecodeError\<close>. Then the line yields
  no chunk and raises nothing, and the decoder goes on with the text behind the line
  exactly as it runs on that text alone: the run is the chunks yielded before the line,
  followed by the run on the rest; where the line began at the start of the buffer, it
  is the run on the text without the line; and the run of the generator on every response
  whose lines make up the text is this run. In particular a well-formed line that stands
  next behind the skipped line yields its chunk. In the witness the unparsable line stands
  between two lines that yield a chunk each.
\<close>

theorem unparsable_event_is_skipped:
  assumes "drain loads before = (chunks, Continue pending)"
    and "newline \<notin> set line" and "strip (pending @ line) = ''data: '' @ payload"
    and "payload \<noteq> ''[DONE]''" and "loads payload = Inl JSONDecodeError"
  shows "drain loads (before @ line @ newline # rest)
           = (chunks @ fst (drain loads rest), snd (drain loads rest))
       \<and> (pending = [] \<longrightarrow>
            drain loads (before @ line @ newline # rest) = drain loads (before @ rest))
       \<and> (map decode resp = map Some texts \<and> concat texts = before @ line @ newline # rest \<longrightarrow>
            ChatCompletions_stream loads decode resp
              = ended (chunks @ fst (drain loads rest), snd (drain loads rest)))
       \<and> (rest = good @ newline # behind \<and> newline \<notin> set good
            \<and> startswith (strip good) ''data: '' \<and> drop 6 (strip good) \<noteq> ''[DONE]''
            \<and> loads (drop 6 (strip good)) = Inr chunk_data
            \<and> ChatCompletionChunk_init chunk_data = Inr chunk \<longrightarrow>
            fst (drain loads (before @ line @ newline # rest))
              = chunks @ chunk # fst (drain loads behind))"
proof -
  from assms(1) have "newline \<notin> set pending"
    by (rule drain_Continue_no_newline)
  with assms(2) have "newline \<notin> set (pending @ line)"
    by simp
  then have "drain loads ((pending @ line) @ newline # rest) = drain loads rest"
    using assms(3-5) by (rule drain_unparsable_line)
  with assms(1) have first: "drain loads (before @ line @ newline # rest)
           = (chunks @ fst (drain loads rest), snd (drain loads rest))"
    using drain_append [of loads before "line @ newline # rest"] by simp
  from assms(1) have "pending = [] \<longrightarrow>
      drain loads (before @ rest) = (chunks @ fst (drain loads rest), snd (drain loads rest))"
    using drain_append [of loads before rest] by simp
  with first have second: "pending = [] \<longrightarrow>
      drain loads (before @ line @ newline # rest) = drain loads (before @ rest)"
    by simp
  have third: "map decode resp = map Some texts
      \<and> concat texts = before @ line @ newline # rest \<longrightarrow>
        ChatCompletions_stream loads decode resp
          = ended (chunks @ fst (drain loads rest), snd (drain loads rest))"
  proof
    assume "map decode resp = map Some texts \<and> concat texts = before @ line @ newline # rest"
    then have "stream_loop loads decode [] resp = ended (drain loads ([] @ concat texts))"
      and "concat texts = before @ line @ newline # rest"
      by (simp_all add: stream_loop_concat)
    with first show "ChatCompletions_stream loads decode resp
          = ended (chunks @ fst (drain loads rest), snd (drain loads rest))"
      by (simp add: ChatCompletions_stream_def)
  qed
  have fourth: "rest = good @ newline # behind \<and> newline \<notin> set good
        \<and> startswith (strip good) ''data: '' \<and> drop 6 (strip good) \<noteq> ''[DONE]''
        \<and> loads (drop 6 (strip good)) = Inr chunk_data
        \<and> ChatCompletionChunk_init chunk_data = Inr chunk \<longrightarrow>
        fst (drain loads (before @ line @ newline # rest))
          = chunks @ chunk # fst (drain loads behind)"
  proof
    assume g: "rest = good @ newline # behind \<and> newline \<notin> set good
        \<and> startswith (strip good) ''data: '' \<and> drop 6 (strip good) \<noteq> ''[DONE]''
        \<and> loads (drop 6 (strip good)) = Inr chunk_data
        \<and> ChatCompletionChunk_init chunk_data = Inr chunk"
    then have "drain loads (good @ newline # behind)
                 = (chunk # fst (drain loads behind), snd (drain loads behind))"
      by (simp add: drain_line)
    with g first show "fst (drain loads (before @ line @ newline # rest))
          = chunks @ chunk # fst (drain loads behind)"
      by simp
  qed
  from first second third fourth show ?thesis
    by (intro conjI)
qed

theorem unparsable_event_witness:
  "ChatCompletions_stream json_loads Some [event_he, event_not_json, event_llo]
     = ([\<lparr>ChatCompletionChunk.id' = JString ''x'', object = JString ''chat.completion.chunk'',
          model = JString [],
          choices = [\<lparr>StreamChoice.index = JInt 0,
                       delta = \<lparr>DeltaMessage.role = JNull, content = JString ''he''\<rparr>,
                       finish_reason = JNull\<rparr>]\<rparr>,
         \<lparr>ChatCompletionChunk.id' = JString ''x'', object = JString ''chat.completion.chunk'',
          model = JString [],
          choices = [\<lparr>StreamChoice.index = JInt 0,
                       delta = \<lparr>DeltaMessage.role = JNull, content = JString ''llo''\<rparr>,
                       finish_reason = JNull\<rparr>]\<rparr>],
        Exhausted)"
proof -
  let ?he = "\<lparr>ChatCompletionChunk.id' = JString ''x'', object = JString ''chat.completion.chunk'',
          model = JString [],
          choices = [\<lparr>StreamChoice.index = JInt 0,
                       delta = \<lparr>DeltaMessage.role = JNull, content = JString ''he''\<rparr>,
                       finish_reason = JNull\<rparr>]\<rparr>"
  let ?llo = "\<lparr>ChatCompletionChunk.id' = JString ''x'', object = JString ''chat.completion.chunk'',
          model = JString [],
          choices = [\<lparr>StreamChoice.index = JInt 0,
                       delta = \<lparr>DeltaMessage.role = JNull, content = JString ''llo''\<rparr>,
                       finish_reason = JNull\<rparr>]\<rparr>"
  have before: "drain json_loads event_he = ([?he], Continue [])"
    by code_simp
  have behind: "drain json_loads event_llo = ([?llo], Continue [])"
    by code_simp
  have line: "newline \<notin> set ''data: not-json''"
    and trimmed: "strip ([] @ ''data: not-json'') = ''data: '' @ ''not-json''"
    and refused: "json_loads ''not-json'' = Inl JSONDecodeError"
    by code_simp+
  have other: "''not-json'' \<noteq> ''[DONE]''"
    by simp
  have texts: "map Some [event_he, event_not_json, event_llo]
                 = map Some [event_he, event_not_json, event_llo]"
    and whole: "concat [event_he, event_not_json, event_llo]
                  = event_he @ ''data: not-json'' @ newline # event_llo"
    by (simp_all add: event_not_json_def newline_def)
  note skipped = unparsable_event_is_skipped [where loads = json_loads and before = event_he
      and chunks = "[?he]" and pending = "[]" and line = "''data: not-json''"
      and payload = "''not-json''" and rest = event_llo and decode = Some
      and resp = "[event_he, event_not_json, event_llo]"
      and texts = "[event_he, event_not_json, event_llo]",
      OF before line trimmed other refused]
  from skipped texts whole
  have "ChatCompletions_stream json_loads Some [event_he, event_not_json, event_llo]
          = ended ([?he] @ fst (drain json_loads event_llo), snd (drain json_loads event_llo))"
    by blast
  then show ?thesis
    by (simp add: behind ended_def)
qed

text \<open>
  Claim C7 as stated promises a chunk for every well-formed line behind a skipped line.
  Behind the line \<^verbatim>\<open>data: not-json\<close>, at whose payload the parser raises
  \<^verbatim>\<open>JSONDecodeError\<close>, the well-formed line that yields a chunk when it stands alone
  yields none where the sentinel stands between the two, since the generator returns
  there, and none where a line whose payload is JSON and no mapping stands between the
  two, since the constructor of the chunk raises \<^verbatim>\<open>AttributeError\<close> there.
\<close>

theorem well_formed_line_behind_unparsable_line_yields_no_chunk:
  "json_loads ''not-json'' = Inl JSONDecodeError
   \<and> ChatCompletions_stream json_loads Some [event_not_json, event_done, event_he] = ([], Returned)
   \<and> ChatCompletions_stream json_loads Some [event_not_json, event_number, event_he]
       = ([], Raised AttributeError)
   \<and> ChatCompletions_stream json_loads Some [event_he]
       = ([\<lparr>ChatCompletionChunk.id' = JString ''x'', object = JString ''chat.completion.chunk'',
            model = JString [],
            choices = [\<lparr>StreamChoice.index = JInt 0,
                         delta = \<lparr>DeltaMessage.role = JNull, content = JString ''he''\<rparr>,
                         finish_reason = JNull\<rparr>]\<rparr>],
          Exhausted)"
  by code_simp

end
